theory Spec2Isabelle
  imports Main
begin

section \<open>The icon generator \<^verbatim>\<open>generate-icons.py\<close>\<close>

text \<open>
  The script consists of \<^verbatim>\<open>create_icon(size, output_path)\<close> and \<^verbatim>\<open>main()\<close>. Both
  are straight-line sequences of calls into the imaging library (Pillow) and the operating
  system. The calls, their order and their arguments are taken from the script; what a call
  does is the documented behaviour of the library, written out below as executable
  functions. Python's \<^verbatim>\<open>//\<close> is floor division, which is \<open>div\<close> on \<open>int\<close>.
\<close>

subsection \<open>Errors\<close>

text \<open>
  The exceptions the calls can raise. \<open>ValueError\<close> is what the library raises for a
  negative image size or a bounding box whose second corner lies before the first; the
  others are the \<^verbatim>\<open>OSError\<close> subclasses raised by \<^verbatim>\<open>os.makedirs\<close> and by opening
  the output file.
\<close>

datatype error =
    ValueError
  | FileNotFoundError
  | NotADirectoryError
  | IsADirectoryError
  | FileExistsError
  | PermissionError

definition is_io_error :: "error \<Rightarrow> bool" where
  "is_io_error e = (e \<noteq> ValueError)"

text \<open>An exception aborts the rest of the sequence: \<open>Inl e\<close> is passed through.\<close>

definition and_then :: "error + 'a \<Rightarrow> ('a \<Rightarrow> error + 'b) \<Rightarrow> error + 'b" where
  "and_then r f = (case r of Inl e \<Rightarrow> Inl e | Inr v \<Rightarrow> f v)"

subsection \<open>Images and the drawing primitives\<close>

type_synonym rgba = "nat \<times> nat \<times> nat \<times> nat"
type_synonym box = "int \<times> int \<times> int \<times> int"

record image =
  width :: int
  height :: int
  pixels :: "int \<times> int \<Rightarrow> rgba"

text \<open>The colour \<^verbatim>\<open>'#9333ea'\<close> is red 0x93, green 0x33, blue 0xea, fully opaque.\<close>

definition accent :: rgba where
  "accent = (147, 51, 234, 255)"

definition white :: rgba where
  "white = (255, 255, 255, 255)"

definition transparent :: rgba where
  "transparent = (0, 0, 0, 0)"

definition alpha :: "rgba \<Rightarrow> nat" where
  "alpha c = (case c of (r, g, b, a) \<Rightarrow> a)"

text \<open>\<^verbatim>\<open>Image.new('RGBA', (w, h), colour)\<close>: a negative dimension is rejected.\<close>

definition Image_new :: "int \<Rightarrow> int \<Rightarrow> rgba \<Rightarrow> error + image" where
  "Image_new w h c =
     (if w < 0 \<or> h < 0 then Inl ValueError
      else Inr \<lparr>width = w, height = h, pixels = (\<lambda>p. c)\<rparr>)"

definition in_canvas :: "image \<Rightarrow> int \<times> int \<Rightarrow> bool" where
  "in_canvas img p = (case p of (x, y) \<Rightarrow> 0 \<le> x \<and> x < width img \<and> 0 \<le> y \<and> y < height img)"

text \<open>
  Drawing replaces the pixels of a region that lie on the canvas (an \<^verbatim>\<open>RGBA\<close> canvas is
  drawn on without blending); what falls outside the canvas is clipped.
\<close>

definition paint :: "(int \<times> int \<Rightarrow> bool) \<Rightarrow> rgba \<Rightarrow> image \<Rightarrow> image" where
  "paint region c img =
     img\<lparr>pixels := (\<lambda>p. if in_canvas img p \<and> region p then c else pixels img p)\<rparr>"

definition valid_box :: "box \<Rightarrow> bool" where
  "valid_box b = (case b of (x0, y0, x1, y1) \<Rightarrow> x0 \<le> x1 \<and> y0 \<le> y1)"

text \<open>A bounding box names pixel columns \<open>x0..x1\<close> and rows \<open>y0..y1\<close>, both ends included.\<close>

definition in_box :: "box \<Rightarrow> int \<times> int \<Rightarrow> bool" where
  "in_box b p =
     (case b of (x0, y0, x1, y1) \<Rightarrow> case p of (x, y) \<Rightarrow>
        x0 \<le> x \<and> x \<le> x1 \<and> y0 \<le> y \<and> y \<le> y1)"

text \<open>
  The filled ellipse of a bounding box, idealised: the pixels whose centre lies in the closed
  ellipse inscribed in the block of pixels the box names. With \<open>w = x1 - x0 + 1\<close> and
  \<open>h = y1 - y0 + 1\<close> the centre of pixel \<open>(x, y)\<close> is at \<open>(2x - x0 - x1) / 2\<close>,
  \<open>(2y - y0 - y1) / 2\<close> from the centre of the ellipse, whose radii are \<open>w / 2\<close> and \<open>h / 2\<close>.
  The library's rasteriser may differ from this by a pixel along the outline.
\<close>

definition in_ellipse :: "box \<Rightarrow> int \<times> int \<Rightarrow> bool" where
  "in_ellipse b p =
     (case b of (x0, y0, x1, y1) \<Rightarrow> case p of (x, y) \<Rightarrow>
        (2 * x - x0 - x1)\<^sup>2 * (y1 - y0 + 1)\<^sup>2 + (2 * y - y0 - y1)\<^sup>2 * (x1 - x0 + 1)\<^sup>2
          \<le> (x1 - x0 + 1)\<^sup>2 * (y1 - y0 + 1)\<^sup>2)"

text \<open>
  Angles are in degrees, measured from three o'clock and increasing clockwise; rows grow
  downwards, so 90 degrees points down. \<open>direction_angle\<close> is exact for the four axis
  directions and places an open quadrant at its middle, which decides membership in every
  sweep bounded by multiples of 90 degrees.
\<close>

definition direction_angle :: "int \<Rightarrow> int \<Rightarrow> int" where
  "direction_angle dx dy =
     (if dy = 0 then (if 0 \<le> dx then 0 else 180)
      else if 0 < dy then (if 0 < dx then 45 else if dx = 0 then 90 else 135)
      else (if dx < 0 then 225 else if dx = 0 then 270 else 315))"

definition in_sweep :: "int \<Rightarrow> int \<Rightarrow> int \<Rightarrow> int \<Rightarrow> bool" where
  "in_sweep start end dx dy =
     (let a = direction_angle dx dy
      in (start \<le> a \<and> a \<le> end) \<or> (start \<le> a + 360 \<and> a + 360 \<le> end))"

text \<open>
  The stroked arc: the part of the ring between the ellipse of the box and the ellipse of the
  box shrunk by the stroke width on every side, within the sweep. A stroke width below 1
  draws nothing.
\<close>

definition in_arc :: "box \<Rightarrow> int \<Rightarrow> int \<Rightarrow> int \<Rightarrow> int \<times> int \<Rightarrow> bool" where
  "in_arc b start end w p =
     (case b of (x0, y0, x1, y1) \<Rightarrow> case p of (x, y) \<Rightarrow>
        1 \<le> w \<and> in_ellipse b p
        \<and> \<not> (valid_box (x0 + w, y0 + w, x1 - w, y1 - w)
              \<and> in_ellipse (x0 + w, y0 + w, x1 - w, y1 - w) p)
        \<and> in_sweep start end (2 * x - x0 - x1) (2 * y - y0 - y1))"

text \<open>\<^verbatim>\<open>draw.ellipse(box, fill=c)\<close>, \<^verbatim>\<open>draw.rectangle(box, fill=c)\<close> and
  \<^verbatim>\<open>draw.arc(box, start, end, fill=c, width=w)\<close>.\<close>

definition ellipse :: "box \<Rightarrow> rgba \<Rightarrow> image \<Rightarrow> error + image" where
  "ellipse b c img = (if valid_box b then Inr (paint (in_ellipse b) c img) else Inl ValueError)"

definition rectangle :: "box \<Rightarrow> rgba \<Rightarrow> image \<Rightarrow> error + image" where
  "rectangle b c img = (if valid_box b then Inr (paint (in_box b) c img) else Inl ValueError)"

definition arc :: "box \<Rightarrow> int \<Rightarrow> int \<Rightarrow> rgba \<Rightarrow> int \<Rightarrow> image \<Rightarrow> error + image" where
  "arc b start end c w img =
     (if valid_box b then Inr (paint (in_arc b start end w) c img) else Inl ValueError)"

subsection \<open>The drawing part of \<^verbatim>\<open>create_icon\<close>\<close>

text \<open>
  The three blocks of drawing calls, in the order of the script: the circles, the bag body,
  the bag handle.
\<close>

definition draw_circles :: "int \<Rightarrow> image \<Rightarrow> error + image" where
  "draw_circles sz img =
     and_then (ellipse (0, 0, sz, sz) accent img) (\<lambda>img.
       let margin = sz div 8 in
       and_then (ellipse (margin, margin, sz - margin, sz - margin) white img) (\<lambda>img.
         let margin2 = sz div 6 in
         ellipse (margin2, margin2, sz - margin2, sz - margin2) accent img))"

definition draw_bag_body :: "int \<Rightarrow> image \<Rightarrow> error + image" where
  "draw_bag_body sz img =
     (let bag_top = sz div 3;
          bag_bottom = sz * 2 div 3;
          bag_left = sz div 3;
          bag_right = sz * 2 div 3
      in rectangle (bag_left, bag_top, bag_right, bag_bottom) white img)"

definition draw_bag_handle :: "int \<Rightarrow> image \<Rightarrow> error + image" where
  "draw_bag_handle sz img =
     (let bag_top = sz div 3;
          handle_width = sz div 8;
          handle_height = sz div 6;
          handle_left = sz div 2 - handle_width;
          handle_right = sz div 2 + handle_width;
          handle_top = bag_top - handle_height div 2
      in arc (handle_left, handle_top, handle_right, bag_top + handle_height div 2)
           0 180 white (sz div 20) img)"

definition icon_canvas :: "int \<Rightarrow> error + image" where
  "icon_canvas sz =
     and_then (Image_new sz sz transparent) (\<lambda>img.
       and_then (draw_circles sz img) (\<lambda>img.
         and_then (draw_bag_body sz img) (\<lambda>img.
           draw_bag_handle sz img)))"

subsection \<open>Paths\<close>

text \<open>
  Paths are the strings the script builds. \<open>path_join\<close> is \<^verbatim>\<open>os.path.join\<close> for two
  components and \<open>dirname\<close> is \<^verbatim>\<open>os.path.dirname\<close>, both for POSIX paths.
\<close>

definition path_join :: "string \<Rightarrow> string \<Rightarrow> string" where
  "path_join a b =
     (if b \<noteq> [] \<and> hd b = CHR ''/'' then b
      else if a = [] \<or> last a = CHR ''/'' then a @ b
      else a @ ''/'' @ b)"

definition dirname :: "string \<Rightarrow> string" where
  "dirname p =
     (let head = rev (dropWhile (\<lambda>c. c \<noteq> CHR ''/'') (rev p));
          stripped = rev (dropWhile (\<lambda>c. c = CHR ''/'') (rev head))
      in if stripped = [] then head else stripped)"

text \<open>
  The directories \<^verbatim>\<open>os.makedirs\<close> visits for a path, outermost first: every non-empty
  prefix that ends before a separator, then the path itself.
\<close>

fun prefixes_from :: "string \<Rightarrow> string \<Rightarrow> string list" where
  "prefixes_from acc [] = [acc]"
| "prefixes_from acc (c # cs) =
     (if c = CHR ''/'' \<and> acc \<noteq> [] then acc # prefixes_from (acc @ [c]) cs
      else prefixes_from (acc @ [c]) cs)"

definition path_prefixes :: "string \<Rightarrow> string list" where
  "path_prefixes p = prefixes_from [] p"

subsection \<open>The file system and the console\<close>

text \<open>
  What the script can touch: the directory tree, as a map from paths to directories and
  files; the paths at which the operating system refuses to create or write (permissions,
  a full disk); and the lines printed so far. A PNG file is represented by the image it
  encodes: the encoding is lossless and a function of the image alone.
\<close>

datatype node = Dir | File image

record world =
  nodes :: "string \<rightharpoonup> node"
  denied :: "string set"
  stdout :: "string list"

text \<open>The current directory (the empty path) and the root always exist.\<close>

definition is_dir :: "world \<Rightarrow> string \<Rightarrow> bool" where
  "is_dir w d = (set d \<subseteq> {CHR ''/''} \<or> nodes w d = Some Dir)"

text \<open>
  One step of \<^verbatim>\<open>os.makedirs(p, exist_ok=True)\<close>: an existing directory is accepted, a
  file in the way is an error, a missing directory is created unless the system refuses.
\<close>

definition mkdir_exist_ok :: "string \<Rightarrow> string \<Rightarrow> world \<Rightarrow> error + world" where
  "mkdir_exist_ok p d w =
     (case nodes w d of
        Some Dir \<Rightarrow> Inr w
      | Some (File f) \<Rightarrow> Inl (if d = p then FileExistsError else NotADirectoryError)
      | None \<Rightarrow>
          if d \<in> denied w then Inl PermissionError
          else Inr (w\<lparr>nodes := (nodes w)(d \<mapsto> Dir)\<rparr>))"

fun mkdir_all :: "string \<Rightarrow> string list \<Rightarrow> world \<Rightarrow> error + world" where
  "mkdir_all p [] w = Inr w"
| "mkdir_all p (d # ds) w = and_then (mkdir_exist_ok p d w) (mkdir_all p ds)"

definition makedirs :: "string \<Rightarrow> world \<Rightarrow> error + world" where
  "makedirs p w = mkdir_all p (path_prefixes p) w"

text \<open>
  \<^verbatim>\<open>img.save(output_path, 'PNG')\<close> opens the path for writing and writes the encoded
  image: the path must not be empty, its parent directory must exist, the path must not
  name a directory, and the system must allow the write. An existing file is replaced.
  Paths are compared as strings: two spellings of one file are not identified.
\<close>

definition save :: "image \<Rightarrow> string \<Rightarrow> world \<Rightarrow> error + world" where
  "save img path w =
     (let parent = dirname path in
      if path = [] then Inl FileNotFoundError
      else if \<not> is_dir w parent then
        (case nodes w parent of
           Some (File f) \<Rightarrow> Inl NotADirectoryError
         | _ \<Rightarrow> Inl FileNotFoundError)
      else if last path = CHR ''/'' \<or> nodes w path = Some Dir then Inl IsADirectoryError
      else if path \<in> denied w then Inl PermissionError
      else Inr (w\<lparr>nodes := (nodes w)(path \<mapsto> File img)\<rparr>))"

definition print :: "string \<Rightarrow> world \<Rightarrow> world" where
  "print line w = w\<lparr>stdout := stdout w @ [line]\<rparr>"

text \<open>Decimal rendering of an integer, as \<^verbatim>\<open>str\<close> does inside an f-string.\<close>

fun digits :: "nat \<Rightarrow> string" where
  "digits n =
     (if n < 10 then [char_of (48 + n)]
      else digits (n div 10) @ [char_of (48 + n mod 10)])"

definition str :: "int \<Rightarrow> string" where
  "str i = (if i < 0 then ''-'' @ digits (nat (- i)) else digits (nat i))"

text \<open>The two emoji of the messages, as the bytes of their UTF-8 encoding.\<close>

definition check_mark :: string where
  "check_mark = map char_of [226, 156, 133 :: nat]"

definition party_popper :: string where
  "party_popper = map char_of [240, 159, 142, 137 :: nat]"

subsection \<open>\<^verbatim>\<open>create_icon\<close> and \<^verbatim>\<open>main\<close>\<close>

definition create_icon :: "int \<Rightarrow> string \<Rightarrow> world \<Rightarrow> error + world" where
  "create_icon sz output_path w =
     and_then (icon_canvas sz) (\<lambda>img.
       and_then (save img output_path w) (\<lambda>w.
         Inr (print (check_mark @ '' Generated '' @ output_path
                       @ '' ('' @ str sz @ ''x'' @ str sz @ '')'') w)))"

definition output_dir :: string where
  "output_dir = ''/home/ubuntu/live-shopping-network/client/public''"

definition main :: "world \<Rightarrow> error + world" where
  "main w =
     and_then (makedirs output_dir w) (\<lambda>w.
       and_then (create_icon 192 (path_join output_dir ''icon-192.png'') w) (\<lambda>w.
         and_then (create_icon 512 (path_join output_dir ''icon-512.png'') w) (\<lambda>w.
           Inr (print (char_of (10 :: nat) # party_popper
                         @ '' All PWA icons generated successfully!'') w))))"

text \<open>
  The interpreter ends with status 0 when \<^verbatim>\<open>main()\<close> returns and with status 1 when an
  exception leaves it.
\<close>

definition exit_status :: "error + world \<Rightarrow> int" where
  "exit_status r = (case r of Inl e \<Rightarrow> 1 | Inr w \<Rightarrow> 0)"

subsection \<open>Notions used to state the properties\<close>

text \<open>
  A path can be written when \<open>save\<close> finds nothing in its way; the empty world has no
  directory entries and refuses nothing. The remaining definitions name the bounding boxes
  the script computes and the canvas its drawing calls produce.
\<close>

definition can_write :: "world \<Rightarrow> string \<Rightarrow> bool" where
  "can_write w path =
     (path \<noteq> [] \<and> last path \<noteq> CHR ''/'' \<and> is_dir w (dirname path)
      \<and> nodes w path \<noteq> Some Dir \<and> path \<notin> denied w)"

definition empty_world :: world where
  "empty_world = \<lparr>nodes = Map.empty, denied = {}, stdout = []\<rparr>"

definition blank :: "int \<Rightarrow> image" where
  "blank sz = \<lparr>width = sz, height = sz, pixels = (\<lambda>p. transparent)\<rparr>"

definition circle_box :: "int \<Rightarrow> int \<Rightarrow> box" where
  "circle_box sz m = (m, m, sz - m, sz - m)"

definition bag_box :: "int \<Rightarrow> box" where
  "bag_box sz = (sz div 3, sz div 3, sz * 2 div 3, sz * 2 div 3)"

definition handle_box :: "int \<Rightarrow> box" where
  "handle_box sz =
     (sz div 2 - sz div 8, sz div 3 - sz div 6 div 2,
      sz div 2 + sz div 8, sz div 3 + sz div 6 div 2)"

definition icon :: "int \<Rightarrow> image" where
  "icon sz =
     paint (in_arc (handle_box sz) 0 180 (sz div 20)) white
       (paint (in_box (bag_box sz)) white
         (paint (in_ellipse (circle_box sz (sz div 6))) accent
           (paint (in_ellipse (circle_box sz (sz div 8))) white
             (paint (in_ellipse (circle_box sz 0)) accent (blank sz)))))"

text \<open>
  A world is well formed when every entry lies in an existing directory. The two paths
  \<open>main\<close> writes are named for the statements below.
\<close>

definition well_formed :: "world \<Rightarrow> bool" where
  "well_formed w = (\<forall>p. nodes w p \<noteq> None \<longrightarrow> is_dir w (dirname p))"

definition icon_192_path :: string where
  "icon_192_path = path_join output_dir ''icon-192.png''"

definition icon_512_path :: string where
  "icon_512_path = path_join output_dir ''icon-512.png''"

section \<open>Properties\<close>

subsection \<open>Sequencing, boxes and the closed form of the canvas\<close>

lemma and_then_Inr [simp]: "and_then (Inr v) f = f v"
  by (simp add: and_then_def)

lemma and_then_Inl [simp]: "and_then (Inl e) f = Inl e"
  by (simp add: and_then_def)

lemma and_then_eq_Inr: "and_then r f = Inr y \<longleftrightarrow> (\<exists>v. r = Inr v \<and> f v = Inr y)"
  by (cases r) simp_all

lemma and_then_eq_Inl:
  "and_then r f = Inl e \<longleftrightarrow> (r = Inl e \<or> (\<exists>v. r = Inr v \<and> f v = Inl e))"
  by (cases r) simp_all

lemma valid_circle_box:
  "0 \<le> sz \<Longrightarrow> valid_box (circle_box sz (sz div 8)) \<and> valid_box (circle_box sz (sz div 6))
     \<and> valid_box (circle_box sz 0)"
  unfolding valid_box_def circle_box_def by simp arith

lemma valid_bag_box: "0 \<le> sz \<Longrightarrow> valid_box (bag_box sz)"
  unfolding valid_box_def bag_box_def by simp

lemma valid_handle_box: "0 \<le> sz \<Longrightarrow> valid_box (handle_box sz)"
  unfolding valid_box_def handle_box_def by simp arith

lemma draw_circles_eq:
  "0 \<le> sz \<Longrightarrow> draw_circles sz img =
     Inr (paint (in_ellipse (circle_box sz (sz div 6))) accent
           (paint (in_ellipse (circle_box sz (sz div 8))) white
             (paint (in_ellipse (circle_box sz 0)) accent img)))"
  using valid_circle_box [of sz]
  by (simp add: draw_circles_def ellipse_def circle_box_def Let_def)

lemma draw_bag_body_eq:
  "0 \<le> sz \<Longrightarrow> draw_bag_body sz img = Inr (paint (in_box (bag_box sz)) white img)"
  using valid_bag_box [of sz]
  by (simp add: draw_bag_body_def rectangle_def bag_box_def Let_def)

lemma draw_bag_handle_eq:
  "0 \<le> sz \<Longrightarrow> draw_bag_handle sz img =
     Inr (paint (in_arc (handle_box sz) 0 180 (sz div 20)) white img)"
  using valid_handle_box [of sz]
  by (simp add: draw_bag_handle_def arc_def handle_box_def Let_def)

lemma icon_canvas_eq: "0 \<le> sz \<Longrightarrow> icon_canvas sz = Inr (icon sz)"
  by (simp add: icon_canvas_def Image_new_def draw_circles_eq draw_bag_body_eq
      draw_bag_handle_eq icon_def blank_def)

lemma icon_canvas_neg: "sz < 0 \<Longrightarrow> icon_canvas sz = Inl ValueError"
  by (simp add: icon_canvas_def Image_new_def)

lemma paint_dims [simp]:
  "width (paint r c img) = width img" "height (paint r c img) = height img"
  by (simp_all add: paint_def)

lemma in_canvas_paint [simp]: "in_canvas (paint r c img) p = in_canvas img p"
  by (simp add: in_canvas_def paint_def)

lemma pixels_paint:
  "pixels (paint r c img) p = (if in_canvas img p \<and> r p then c else pixels img p)"
  by (simp add: paint_def)

lemma icon_dims [simp]: "width (icon sz) = sz" "height (icon sz) = sz"
  by (simp_all add: icon_def blank_def)

lemma save_can_write:
  "can_write w path \<Longrightarrow> save img path w = Inr (w\<lparr>nodes := (nodes w)(path \<mapsto> File img)\<rparr>)"
  by (simp add: save_def can_write_def)

lemma save_Inr:
  "save img path w = Inr w' \<Longrightarrow>
     can_write w path \<and> w' = w\<lparr>nodes := (nodes w)(path \<mapsto> File img)\<rparr>"
  by (auto simp: save_def can_write_def Let_def split: if_splits option.splits node.splits)

lemma save_Inl: "save img path w = Inl e \<Longrightarrow> is_io_error e \<and> \<not> can_write w path"
  by (auto simp: save_def can_write_def Let_def is_io_error_def
      split: if_splits option.splits node.splits)


lemma create_icon_eq:
  "0 \<le> sz \<Longrightarrow> create_icon sz path w =
     and_then (save (icon sz) path w) (\<lambda>w.
       Inr (print (check_mark @ '' Generated '' @ path @ '' ('' @ str sz @ ''x'' @ str sz @ '')'') w))"
  by (simp add: create_icon_def icon_canvas_eq)

lemma create_icon_Inr:
  assumes "create_icon sz path w = Inr w'"
  shows "0 \<le> sz \<and> can_write w path \<and> nodes w' = (nodes w)(path \<mapsto> File (icon sz))
         \<and> denied w' = denied w
         \<and> stdout w' = stdout w @ [check_mark @ '' Generated '' @ path @ '' ('' @ str sz @ ''x'' @ str sz @ '')'']"
proof -
  have nonneg: "0 \<le> sz"
  proof (rule ccontr)
    assume "\<not> 0 \<le> sz"
    then have "icon_canvas sz = Inl ValueError" by (simp add: icon_canvas_neg)
    with assms show False by (simp add: create_icon_def)
  qed
  from assms obtain v where v: "save (icon sz) path w = Inr v"
    and w': "w' = print (check_mark @ '' Generated '' @ path @ '' ('' @ str sz @ ''x'' @ str sz @ '')'') v"
    by (auto simp: create_icon_eq [OF nonneg] and_then_eq_Inr)
  from save_Inr [OF v] w' nonneg show ?thesis by (simp add: print_def)
qed

lemma create_icon_can_write:
  "0 \<le> sz \<Longrightarrow> can_write w path \<Longrightarrow> \<exists>w'. create_icon sz path w = Inr w'"
  by (simp add: create_icon_eq save_can_write)

lemma create_icon_Inl:
  assumes "0 \<le> sz" "create_icon sz path w = Inl e"
  shows "save (icon sz) path w = Inl e"
  using assms by (auto simp: create_icon_eq and_then_eq_Inl)

lemma can_write_after:
  assumes "can_write w path" "nodes w' = (nodes w)(path \<mapsto> File img)" "denied w' = denied w"
  shows "can_write w' path"
proof -
  from assms(1) have d: "is_dir w (dirname path)" and nd: "nodes w path \<noteq> Some Dir"
    by (simp_all add: can_write_def)
  have "is_dir w' (dirname path)"
  proof (cases "set (dirname path) \<subseteq> {CHR ''/''}")
    case True
    then show ?thesis by (simp add: is_dir_def)
  next
    case False
    with d have "nodes w (dirname path) = Some Dir" by (simp add: is_dir_def)
    with nd have "dirname path \<noteq> path" by auto
    with \<open>nodes w (dirname path) = Some Dir\<close> assms(2) show ?thesis by (simp add: is_dir_def)
  qed
  with assms show ?thesis by (simp add: can_write_def)
qed

subsection \<open>Geometry of the drawn shapes\<close>

lemma in_sweep_lower_half: "in_sweep 0 180 dx dy \<longleftrightarrow> 0 \<le> dy"
  by (simp add: in_sweep_def direction_angle_def Let_def)

lemma square_le_cancel:
  fixes a w h :: int
  assumes "a\<^sup>2 * h\<^sup>2 + b\<^sup>2 * w\<^sup>2 \<le> w\<^sup>2 * h\<^sup>2" and "0 < h" and "0 \<le> w"
  shows "\<bar>a\<bar> \<le> w"
proof -
  have "0 \<le> b\<^sup>2 * w\<^sup>2" by simp
  with assms(1) have "a\<^sup>2 * h\<^sup>2 \<le> w\<^sup>2 * h\<^sup>2" by linarith
  moreover from assms(2) have "0 < h\<^sup>2" by simp
  ultimately have "a\<^sup>2 \<le> w\<^sup>2" by (simp only: mult_le_cancel_right_pos)
  then have "\<bar>a\<bar> \<le> \<bar>w\<bar>" by (simp only: abs_le_square_iff)
  with assms(3) show ?thesis by simp
qed

lemma in_ellipse_in_box:
  assumes "valid_box b" and "in_ellipse b p"
  shows "in_box b p"
proof -
  obtain x0 y0 x1 y1 where b: "b = (x0, y0, x1, y1)" by (cases b) auto
  obtain x y where p: "p = (x, y)" by (cases p)
  from assms(1) b have v: "x0 \<le> x1" "y0 \<le> y1" by (simp_all add: valid_box_def)
  from assms(2) b p have e:
    "(2 * x - x0 - x1)\<^sup>2 * (y1 - y0 + 1)\<^sup>2 + (2 * y - y0 - y1)\<^sup>2 * (x1 - x0 + 1)\<^sup>2
       \<le> (x1 - x0 + 1)\<^sup>2 * (y1 - y0 + 1)\<^sup>2"
    by (simp add: in_ellipse_def)
  from v have pos: "0 < y1 - y0 + 1" "0 \<le> x1 - x0 + 1" "0 < x1 - x0 + 1" "0 \<le> y1 - y0 + 1"
    by simp_all
  have "\<bar>2 * x - x0 - x1\<bar> \<le> x1 - x0 + 1"
    using square_le_cancel [OF e pos(1) pos(2)] .
  moreover have "\<bar>2 * y - y0 - y1\<bar> \<le> y1 - y0 + 1"
  proof -
    from e have "(2 * y - y0 - y1)\<^sup>2 * (x1 - x0 + 1)\<^sup>2 + (2 * x - x0 - x1)\<^sup>2 * (y1 - y0 + 1)\<^sup>2
       \<le> (y1 - y0 + 1)\<^sup>2 * (x1 - x0 + 1)\<^sup>2"
      by (simp only: add.commute mult.commute)
    from square_le_cancel [OF this pos(3) pos(4)] show ?thesis .
  qed
  ultimately show ?thesis using b p by (simp add: in_box_def) arith
qed

lemma handle_in_bag:
  assumes "0 \<le> sz" and "in_arc (handle_box sz) 0 180 w p"
  shows "in_box (bag_box sz) p \<and> sz div 3 \<le> snd p"
proof -
  obtain x y where p: "p = (x, y)" by (cases p)
  from assms(2) p have e: "in_ellipse (handle_box sz) (x, y)"
    and s: "0 \<le> 2 * y - (sz div 3 - sz div 6 div 2) - (sz div 3 + sz div 6 div 2)"
    by (simp_all add: in_arc_def handle_box_def in_sweep_lower_half)
  from in_ellipse_in_box [OF valid_handle_box [OF assms(1)] e]
  have bx: "sz div 2 - sz div 8 \<le> x" "x \<le> sz div 2 + sz div 8" "y \<le> sz div 3 + sz div 6 div 2"
    by (simp_all add: in_box_def handle_box_def)
  from s have "sz div 3 \<le> y" by simp
  moreover from assms(1) bx have "sz div 3 \<le> x" "x \<le> sz * 2 div 3" "y \<le> sz * 2 div 3"
    by arith+
  ultimately show ?thesis using p by (simp add: in_box_def bag_box_def)
qed

lemma corner_outside_circle:
  assumes "3 \<le> sz" and "0 \<le> m" and "2 * m \<le> sz"
  shows "\<not> in_ellipse (circle_box sz m) (0, 0)"
proof
  assume "in_ellipse (circle_box sz m) (0, 0)"
  then have e: "sz\<^sup>2 * (sz - 2 * m + 1)\<^sup>2 + sz\<^sup>2 * (sz - 2 * m + 1)\<^sup>2
       \<le> (sz - 2 * m + 1)\<^sup>2 * (sz - 2 * m + 1)\<^sup>2"
    by (simp add: in_ellipse_def circle_box_def power2_commute algebra_simps)
  define w where "w = sz - 2 * m + 1"
  from assms have w: "0 < w" "w \<le> sz + 1" by (simp_all add: w_def)
  from e have "(2 * sz\<^sup>2) * w\<^sup>2 \<le> w\<^sup>2 * w\<^sup>2" by (simp add: w_def)
  moreover from w have "0 < w\<^sup>2" by simp
  ultimately have "2 * sz\<^sup>2 \<le> w\<^sup>2" by (simp only: mult_le_cancel_right_pos)
  moreover from w have "w\<^sup>2 \<le> (sz + 1)\<^sup>2" by (simp add: power_mono)
  ultimately have "2 * sz\<^sup>2 \<le> (sz + 1)\<^sup>2" by linarith
  then have "sz * sz \<le> 2 * sz + 1" by (simp add: power2_eq_square algebra_simps)
  moreover from assms(1) have "3 * sz \<le> sz * sz" by (simp add: mult_right_mono)
  ultimately show False using assms(1) by linarith
qed

lemma scaled_circle_bound:
  fixes a d r :: int
  assumes "a\<^sup>2 + d\<^sup>2 \<le> r\<^sup>2"
  shows "a\<^sup>2 * r\<^sup>2 + d\<^sup>2 * r\<^sup>2 \<le> r\<^sup>2 * r\<^sup>2"
proof -
  have "(a\<^sup>2 + d\<^sup>2) * r\<^sup>2 \<le> r\<^sup>2 * r\<^sup>2"
    using assms by (intro mult_right_mono) simp_all
  then show ?thesis by (simp add: distrib_right)
qed

lemma outer_circle_touches_edges:
  assumes "0 < sz"
  shows "in_ellipse (0, 0, sz, sz) (0, sz div 2) \<and> in_ellipse (0, 0, sz, sz) (sz - 1, sz div 2)
       \<and> in_ellipse (0, 0, sz, sz) (sz div 2, 0) \<and> in_ellipse (0, 0, sz, sz) (sz div 2, sz - 1)"
proof -
  define d where "d = 2 * (sz div 2) - sz"
  have "d = 0 \<or> d = - 1" unfolding d_def by arith
  then have d2: "d\<^sup>2 \<le> 1" by auto
  have e: "(sz + 1)\<^sup>2 = sz\<^sup>2 + 2 * sz + 1" "(sz - 2)\<^sup>2 = sz\<^sup>2 - 4 * sz + 4"
    by (simp_all add: power2_eq_square algebra_simps)
  have l: "sz\<^sup>2 + d\<^sup>2 \<le> (sz + 1)\<^sup>2" using assms d2 unfolding e by linarith
  have r: "(sz - 2)\<^sup>2 + d\<^sup>2 \<le> (sz + 1)\<^sup>2" using assms d2 unfolding e by linarith
  have l': "d\<^sup>2 + sz\<^sup>2 \<le> (sz + 1)\<^sup>2" using l by (simp add: add.commute)
  have r': "d\<^sup>2 + (sz - 2)\<^sup>2 \<le> (sz + 1)\<^sup>2" using r by (simp add: add.commute)
  have m: "(- sz)\<^sup>2 = sz\<^sup>2" by simp
  have "in_ellipse (0, 0, sz, sz) (0, sz div 2)"
    using scaled_circle_bound [OF l] by (simp add: in_ellipse_def d_def)
  moreover have "in_ellipse (0, 0, sz, sz) (sz - 1, sz div 2)"
    using scaled_circle_bound [OF r] by (simp add: in_ellipse_def d_def algebra_simps)
  moreover have "in_ellipse (0, 0, sz, sz) (sz div 2, 0)"
    using scaled_circle_bound [OF l'] by (simp add: in_ellipse_def d_def)
  moreover have "in_ellipse (0, 0, sz, sz) (sz div 2, sz - 1)"
    using scaled_circle_bound [OF r'] by (simp add: in_ellipse_def d_def algebra_simps)
  ultimately show ?thesis by simp
qed

lemma icon_pixels:
  assumes "0 \<le> sz" and "in_canvas (blank sz) p"
  shows "pixels (icon sz) p =
     (if in_box (bag_box sz) p then white
      else if in_ellipse (circle_box sz (sz div 6)) p then accent
      else if in_ellipse (circle_box sz (sz div 8)) p then white
      else if in_ellipse (circle_box sz 0) p then accent
      else transparent)"
  using assms handle_in_bag [OF assms(1), of "sz div 20" p]
  by (simp add: icon_def pixels_paint blank_def)

subsection \<open>Output dimensions\<close>

text \<open>
  Claim C1. For every positive size and every path, a successful call of \<open>create_icon\<close>
  leaves at the path a file holding an image that is exactly \<open>size\<close> pixels wide and
  \<open>size\<close> pixels high.
\<close>

theorem create_icon_dimensions:
  assumes "0 < sz" and "create_icon sz path w = Inr w'"
  shows "\<exists>img. nodes w' path = Some (File img) \<and> width img = sz \<and> height img = sz"
  using create_icon_Inr [OF assms(2)] by simp

lemma can_write_empty: "can_write empty_world ''icon-192.png''"
  by (simp add: can_write_def empty_world_def is_dir_def dirname_def)

theorem create_icon_dimensions_witness:
  "\<exists>w' img. create_icon 192 ''icon-192.png'' empty_world = Inr w'
     \<and> nodes w' ''icon-192.png'' = Some (File img) \<and> width img = 192 \<and> height img = 192"
proof -
  obtain w' where w': "create_icon 192 ''icon-192.png'' empty_world = Inr w'"
    using create_icon_can_write [OF _ can_write_empty, of 192] by auto
  have "(0::int) < 192" by simp
  from create_icon_dimensions [OF this w'] w' show ?thesis by blast
qed

subsection \<open>Determinism\<close>

text \<open>
  Claim C3. \<open>create_icon\<close> is deterministic. After a successful call, a second call with the
  same size and path succeeds as well and leaves every directory entry as the first call
  left it, so it overwrites the file with identical content; and whatever world a call
  starts from, a successful call writes the same content at the path.
\<close>

theorem create_icon_deterministic:
  assumes "create_icon sz path w = Inr w1"
  shows "(\<exists>w2. create_icon sz path w1 = Inr w2 \<and> nodes w2 = nodes w1)
         \<and> (\<forall>v v1. create_icon sz path v = Inr v1 \<longrightarrow> nodes v1 path = nodes w1 path)"
proof -
  note first = create_icon_Inr [OF assms]
  then have "can_write w1 path" using can_write_after by blast
  with first obtain w2 where w2: "create_icon sz path w1 = Inr w2"
    using create_icon_can_write by blast
  from create_icon_Inr [OF w2] first have "nodes w2 = nodes w1" by simp
  moreover have "\<forall>v v1. create_icon sz path v = Inr v1 \<longrightarrow> nodes v1 path = nodes w1 path"
    using first by (auto dest: create_icon_Inr)
  ultimately show ?thesis using w2 by blast
qed

theorem create_icon_deterministic_witness:
  "\<exists>w1 w2. create_icon 192 ''icon-192.png'' empty_world = Inr w1
     \<and> create_icon 192 ''icon-192.png'' w1 = Inr w2 \<and> nodes w2 = nodes w1"
proof -
  obtain w1 where w1: "create_icon 192 ''icon-192.png'' empty_world = Inr w1"
    using create_icon_can_write [OF _ can_write_empty, of 192] by auto
  from create_icon_deterministic [OF w1] w1 show ?thesis by blast
qed

subsection \<open>The handle\<close>

text \<open>
  Claim C4. The handle is meant to be a white half-ellipse arc above the bag rectangle. The
  call sweeps from 0 to 180 degrees, which the library measures clockwise from three o'clock:
  the lower half of the ellipse. The bounding box is centred on the top edge of the bag, so
  for every positive size each pixel the call changes lies inside the bag rectangle, on or
  below the row \<open>size div 3\<close>, and since the bag is already white the canvas produced with
  the handle is the canvas produced without it.
\<close>

theorem handle_drawn_inside_bag:
  assumes "0 < sz"
  shows "(\<forall>img0. \<exists>img1. draw_bag_handle sz img0 = Inr img1
           \<and> (\<forall>x y. pixels img1 (x, y) \<noteq> pixels img0 (x, y) \<longrightarrow>
                 sz div 3 \<le> x \<and> x \<le> sz * 2 div 3 \<and> sz div 3 \<le> y \<and> y \<le> sz * 2 div 3))
       \<and> icon_canvas sz =
           and_then (Image_new sz sz transparent) (\<lambda>img.
             and_then (draw_circles sz img) (draw_bag_body sz))"
proof -
  from assms have nonneg: "0 \<le> sz" by simp
  have "sz div 3 \<le> x \<and> x \<le> sz * 2 div 3 \<and> sz div 3 \<le> y \<and> y \<le> sz * 2 div 3"
    if "pixels (paint (in_arc (handle_box sz) 0 180 (sz div 20)) white img0) (x, y)
          \<noteq> pixels img0 (x, y)" for img0 x y
  proof -
    from that have "in_arc (handle_box sz) 0 180 (sz div 20) (x, y)"
      by (simp add: pixels_paint split: if_splits)
    from handle_in_bag [OF nonneg this] show ?thesis by (simp add: in_box_def bag_box_def)
  qed
  then have first: "\<forall>img0. \<exists>img1. draw_bag_handle sz img0 = Inr img1
           \<and> (\<forall>x y. pixels img1 (x, y) \<noteq> pixels img0 (x, y) \<longrightarrow>
                 sz div 3 \<le> x \<and> x \<le> sz * 2 div 3 \<and> sz div 3 \<le> y \<and> y \<le> sz * 2 div 3)"
    using nonneg by (simp add: draw_bag_handle_eq)
  have same: "paint (in_arc (handle_box sz) 0 180 (sz div 20)) white
                (paint (in_box (bag_box sz)) white img)
              = paint (in_box (bag_box sz)) white img" for img
  proof (rule image.equality)
    show "pixels (paint (in_arc (handle_box sz) 0 180 (sz div 20)) white
                   (paint (in_box (bag_box sz)) white img))
          = pixels (paint (in_box (bag_box sz)) white img)"
      using handle_in_bag [OF nonneg] by (auto simp: fun_eq_iff pixels_paint)
  qed (simp_all add: paint_def)
  have "icon_canvas sz =
           and_then (Image_new sz sz transparent) (\<lambda>img.
             and_then (draw_circles sz img) (draw_bag_body sz))"
    using nonneg
    by (simp add: icon_canvas_eq icon_def same Image_new_def draw_circles_eq draw_bag_body_eq
        blank_def)
  with first show ?thesis by simp
qed

theorem handle_drawn_inside_bag_witness:
  "(0::int) < 192
   \<and> icon_canvas 192 =
       and_then (Image_new 192 192 transparent) (\<lambda>img.
         and_then (draw_circles 192 img) (draw_bag_body 192))"
  using handle_drawn_inside_bag [of 192] by simp

subsection \<open>The smallest icon\<close>

text \<open>
  Claim C5. At size 1 the insets and the stroke width are 0, every drawing call is still
  accepted, and for a writable path \<open>create_icon 1\<close> succeeds and writes an image of 1 by 1
  pixels.
\<close>

theorem create_icon_size_one:
  assumes "can_write w path"
  shows "(\<forall>img. (\<exists>i. draw_circles 1 img = Inr i) \<and> (\<exists>i. draw_bag_body 1 img = Inr i)
            \<and> (\<exists>i. draw_bag_handle 1 img = Inr i))
       \<and> (\<exists>w' img. create_icon 1 path w = Inr w' \<and> nodes w' path = Some (File img)
            \<and> width img = 1 \<and> height img = 1)"
proof -
  have "\<exists>w'. create_icon 1 path w = Inr w'"
    using create_icon_can_write [OF _ assms, of 1] by simp
  then obtain w' where w': "create_icon 1 path w = Inr w'" ..
  from create_icon_Inr [OF w'] w'
  have "\<exists>w' img. create_icon 1 path w = Inr w' \<and> nodes w' path = Some (File img)
            \<and> width img = 1 \<and> height img = 1"
    by simp
  then show ?thesis
    by (simp add: draw_circles_eq draw_bag_body_eq draw_bag_handle_eq)
qed

theorem create_icon_size_one_witness:
  "\<exists>w' img. create_icon 1 ''icon-1.png'' empty_world = Inr w'
      \<and> nodes w' ''icon-1.png'' = Some (File img) \<and> width img = 1 \<and> height img = 1"
proof -
  have "can_write empty_world ''icon-1.png''"
    by (simp add: can_write_def empty_world_def is_dir_def dirname_def)
  from create_icon_size_one [OF this] show ?thesis by blast
qed

subsection \<open>The circles\<close>

text \<open>
  Claim C6. For every positive size the first three drawing calls fill, in this order, the
  circle of the box \<open>(0, 0, size, size)\<close> in the accent colour, the circle inset by
  \<open>size div 8\<close> in white and the circle inset by \<open>size div 6\<close> in the accent colour: on
  the canvas a later circle hides an earlier one and what no circle covers stays
  transparent. The first circle reaches the middle of each of the four edges of the canvas.
  In the icon of size 192 the pixel \<open>(96, 5)\<close>, which lies in the outer ring,
  has the accent colour.
\<close>

theorem circles_in_order:
  assumes "0 < sz"
  shows "(\<exists>img. and_then (Image_new sz sz transparent) (draw_circles sz) = Inr img
           \<and> width img = sz \<and> height img = sz
           \<and> (\<forall>p. in_canvas img p \<longrightarrow> pixels img p =
                (if in_ellipse (sz div 6, sz div 6, sz - sz div 6, sz - sz div 6) p then accent
                 else if in_ellipse (sz div 8, sz div 8, sz - sz div 8, sz - sz div 8) p then white
                 else if in_ellipse (0, 0, sz, sz) p then accent
                 else transparent)))
       \<and> (in_ellipse (0, 0, sz, sz) (0, sz div 2) \<and> in_ellipse (0, 0, sz, sz) (sz - 1, sz div 2)
           \<and> in_ellipse (0, 0, sz, sz) (sz div 2, 0) \<and> in_ellipse (0, 0, sz, sz) (sz div 2, sz - 1))
       \<and> (\<exists>img. icon_canvas 192 = Inr img \<and> in_canvas img (96, 5)
           \<and> in_ellipse (0, 0, 192, 192) (96, 5) \<and> \<not> in_ellipse (24, 24, 168, 168) (96, 5)
           \<and> pixels img (96, 5) = accent)"
proof -
  from assms have nonneg: "0 \<le> sz" by simp
  have "\<exists>img. and_then (Image_new sz sz transparent) (draw_circles sz) = Inr img
           \<and> width img = sz \<and> height img = sz
           \<and> (\<forall>p. in_canvas img p \<longrightarrow> pixels img p =
                (if in_ellipse (sz div 6, sz div 6, sz - sz div 6, sz - sz div 6) p then accent
                 else if in_ellipse (sz div 8, sz div 8, sz - sz div 8, sz - sz div 8) p then white
                 else if in_ellipse (0, 0, sz, sz) p then accent
                 else transparent))"
    using nonneg by (simp add: Image_new_def draw_circles_eq pixels_paint circle_box_def)
  moreover have "in_canvas (icon 192) (96, 5)"
    by (simp add: in_canvas_def)
  moreover have "in_ellipse (0, 0, 192, 192) (96, 5)" "\<not> in_ellipse (24, 24, 168, 168) (96, 5)"
    by (simp_all add: in_ellipse_def)
  moreover have "pixels (icon 192) (96, 5) = accent"
    by (simp add: icon_pixels in_canvas_def blank_def in_box_def bag_box_def in_ellipse_def
        circle_box_def)
  ultimately show ?thesis
    using outer_circle_touches_edges [OF assms] by (simp add: icon_canvas_eq)
qed

theorem circles_in_order_witness:
  "(0::int) < 192
   \<and> (\<exists>img. and_then (Image_new 192 192 transparent) (draw_circles 192) = Inr img
        \<and> width img = 192 \<and> height img = 192
        \<and> pixels img (96, 5) = accent \<and> pixels img (96, 28) = white
        \<and> pixels img (96, 40) = accent \<and> pixels img (0, 0) = transparent)"
proof -
  have pos: "(0::int) < 192" by simp
  from circles_in_order [OF pos] obtain img where
    img: "and_then (Image_new 192 192 transparent) (draw_circles 192) = Inr img"
    and dims: "width img = 192" "height img = 192"
    and px: "\<And>p. in_canvas img p \<Longrightarrow> pixels img p =
                (if in_ellipse (192 div 6, 192 div 6, 192 - 192 div 6, 192 - 192 div 6) p
                 then accent
                 else if in_ellipse (192 div 8, 192 div 8, 192 - 192 div 8, 192 - 192 div 8) p
                 then white
                 else if in_ellipse (0, 0, 192, 192) p then accent
                 else transparent)"
    by blast
  have "pixels img (96, 5) = accent"
    using dims by (subst px) (simp_all add: in_canvas_def in_ellipse_def)
  moreover have "pixels img (96, 28) = white"
    using dims by (subst px) (simp_all add: in_canvas_def in_ellipse_def)
  moreover have "pixels img (96, 40) = accent"
    using dims by (subst px) (simp_all add: in_canvas_def in_ellipse_def)
  moreover have "pixels img (0, 0) = transparent"
    using dims by (subst px) (simp_all add: in_canvas_def in_ellipse_def)
  ultimately show ?thesis using img dims by simp
qed

subsection \<open>The bag body\<close>

text \<open>
  Claim C7. For every positive size the bag body call paints white exactly the pixels with
  \<open>size div 3 \<le> x \<le> size * 2 div 3\<close> and \<open>size div 3 \<le> y \<le> size * 2 div 3\<close>, all of
  which lie on the canvas, and these pixels are white in the finished icon.
\<close>

theorem bag_body_rectangle:
  assumes "0 < sz"
  shows "(\<forall>img0. \<exists>img1. draw_bag_body sz img0 = Inr img1
           \<and> (\<forall>x y. pixels img1 (x, y) =
                (if in_canvas img0 (x, y) \<and> sz div 3 \<le> x \<and> x \<le> sz * 2 div 3
                    \<and> sz div 3 \<le> y \<and> y \<le> sz * 2 div 3
                 then white else pixels img0 (x, y))))
       \<and> (\<exists>img. icon_canvas sz = Inr img
           \<and> (\<forall>x y. sz div 3 \<le> x \<and> x \<le> sz * 2 div 3 \<and> sz div 3 \<le> y \<and> y \<le> sz * 2 div 3
                \<longrightarrow> in_canvas img (x, y) \<and> pixels img (x, y) = white))"
proof -
  from assms have nonneg: "0 \<le> sz" by simp
  have step: "\<forall>img0. \<exists>img1. draw_bag_body sz img0 = Inr img1
           \<and> (\<forall>x y. pixels img1 (x, y) =
                (if in_canvas img0 (x, y) \<and> sz div 3 \<le> x \<and> x \<le> sz * 2 div 3
                    \<and> sz div 3 \<le> y \<and> y \<le> sz * 2 div 3
                 then white else pixels img0 (x, y)))"
    using nonneg by (simp add: draw_bag_body_eq pixels_paint in_box_def bag_box_def)
  have "in_canvas (icon sz) (x, y) \<and> pixels (icon sz) (x, y) = white"
    if r: "sz div 3 \<le> x \<and> x \<le> sz * 2 div 3 \<and> sz div 3 \<le> y \<and> y \<le> sz * 2 div 3" for x y
  proof -
    from assms r have "0 \<le> x" "x < sz" "0 \<le> y" "y < sz" by arith+
    then have c: "in_canvas (blank sz) (x, y)" by (simp add: in_canvas_def blank_def)
    then have "in_canvas (icon sz) (x, y)" by (simp add: in_canvas_def blank_def)
    moreover from r have "in_box (bag_box sz) (x, y)" by (simp add: in_box_def bag_box_def)
    ultimately show ?thesis using icon_pixels [OF nonneg c] by simp
  qed
  with step show ?thesis using nonneg by (simp add: icon_canvas_eq)
qed

theorem bag_body_rectangle_witness:
  "(0::int) < 192 \<and> (\<exists>img. icon_canvas 192 = Inr img
      \<and> (\<forall>x y. 64 \<le> x \<and> x \<le> 128 \<and> 64 \<le> y \<and> y \<le> 128
           \<longrightarrow> in_canvas img (x, y) \<and> pixels img (x, y) = white))"
  using bag_body_rectangle [of 192] by simp

subsection \<open>The corners\<close>

text \<open>
  Claim C10, as stated: for every size above 2 the four corner pixels stay transparent.
  At size 3 the bag rectangle is \<open>(1, 1, 2, 2)\<close> and covers the bottom right pixel
  \<open>(2, 2)\<close>, which ends up opaque white.
\<close>

theorem bottom_right_corner_opaque_at_3:
  "icon_canvas 3 = Inr (icon 3) \<and> in_canvas (icon 3) (2, 2)
   \<and> pixels (icon 3) (2, 2) = white \<and> alpha (pixels (icon 3) (2, 2)) = 255"
proof -
  have "in_canvas (blank 3) (2, 2)" by (simp add: in_canvas_def blank_def)
  then have "pixels (icon 3) (2, 2) = white"
    by (simp add: icon_pixels in_box_def bag_box_def)
  then show ?thesis
    by (simp add: icon_canvas_eq in_canvas_def white_def alpha_def)
qed

text \<open>
  Claim C10, amended: for every size above 2 the top left pixel \<open>(0, 0)\<close> of the icon is on
  the canvas and stays fully transparent, so the icon is never fully opaque.
\<close>

theorem top_left_corner_transparent:
  assumes "2 < sz"
  shows "\<exists>img. icon_canvas sz = Inr img \<and> in_canvas img (0, 0)
           \<and> pixels img (0, 0) = transparent \<and> alpha (pixels img (0, 0)) = 0"
proof -
  from assms have nonneg: "0 \<le> sz" and three: "3 \<le> sz" by simp_all
  have c: "in_canvas (blank sz) (0, 0)" using assms by (simp add: in_canvas_def blank_def)
  have "0 < sz div 3" using three by arith
  then have "\<not> in_box (bag_box sz) (0, 0)" by (simp add: in_box_def bag_box_def)
  moreover have "\<not> in_ellipse (circle_box sz (sz div 6)) (0, 0)"
    using three by (intro corner_outside_circle) simp_all
  moreover have "\<not> in_ellipse (circle_box sz (sz div 8)) (0, 0)"
    using three by (intro corner_outside_circle) simp_all
  moreover have "\<not> in_ellipse (circle_box sz 0) (0, 0)"
    using three by (intro corner_outside_circle) simp_all
  ultimately have "pixels (icon sz) (0, 0) = transparent"
    using icon_pixels [OF nonneg c] by simp
  with c show ?thesis using nonneg
    by (simp add: icon_canvas_eq in_canvas_def blank_def transparent_def alpha_def)
qed

theorem top_left_corner_transparent_witness:
  "(2::int) < 3 \<and> (\<exists>img. icon_canvas 3 = Inr img \<and> in_canvas img (0, 0)
           \<and> pixels img (0, 0) = transparent \<and> alpha (pixels img (0, 0)) = 0)"
  using top_left_corner_transparent [of 3] by simp

subsection \<open>The entry routine\<close>

lemma output_prefixes:
  "path_prefixes output_dir =
     [''/home'', ''/home/ubuntu'', ''/home/ubuntu/live-shopping-network'',
      ''/home/ubuntu/live-shopping-network/client'', output_dir]"
  by (simp add: path_prefixes_def output_dir_def)

lemma icon_192_path_eq:
  "icon_192_path = ''/home/ubuntu/live-shopping-network/client/public/icon-192.png''"
  by (simp add: icon_192_path_def path_join_def output_dir_def)

lemma icon_512_path_eq:
  "icon_512_path = ''/home/ubuntu/live-shopping-network/client/public/icon-512.png''"
  by (simp add: icon_512_path_def path_join_def output_dir_def)

lemma dirname_icon_paths:
  "dirname icon_192_path = output_dir" "dirname icon_512_path = output_dir"
  by (simp_all add: icon_192_path_eq icon_512_path_eq dirname_def output_dir_def)

lemma dirname_prefixes:
  "d \<in> set (path_prefixes output_dir) \<Longrightarrow> dirname d \<noteq> output_dir"
  by (auto simp: output_prefixes) (simp_all add: dirname_def output_dir_def)

lemma icon_paths_not_prefixes:
  "icon_192_path \<notin> set (path_prefixes output_dir)"
  "icon_512_path \<notin> set (path_prefixes output_dir)"
  "icon_192_path \<noteq> icon_512_path"
  by (simp_all add: output_prefixes) (simp_all add: icon_192_path_eq icon_512_path_eq output_dir_def)

lemma icon_paths_files:
  "icon_192_path \<noteq> []" "last icon_192_path \<noteq> CHR ''/''"
  "icon_512_path \<noteq> []" "last icon_512_path \<noteq> CHR ''/''"
  by (simp_all add: icon_192_path_eq icon_512_path_eq)

lemma output_dir_not_root: "\<not> set output_dir \<subseteq> {CHR ''/''}"
  by (simp add: output_dir_def)

lemma mkdir_exist_ok_Inr:
  assumes "mkdir_exist_ok p d w = Inr w1"
  shows "nodes w1 = (nodes w)(d \<mapsto> Dir) \<and> denied w1 = denied w \<and> stdout w1 = stdout w"
  using assms
  by (auto simp: mkdir_exist_ok_def fun_eq_iff split: option.splits node.splits if_splits)

lemma mkdir_exist_ok_Inl: "mkdir_exist_ok p d w = Inl e \<Longrightarrow> is_io_error e"
  by (auto simp: mkdir_exist_ok_def is_io_error_def split: option.splits node.splits if_splits)

lemma mkdir_all_Inr:
  "mkdir_all p ds w = Inr w1 \<Longrightarrow>
     (\<forall>d \<in> set ds. nodes w1 d = Some Dir) \<and> (\<forall>q. q \<notin> set ds \<longrightarrow> nodes w1 q = nodes w q)
     \<and> denied w1 = denied w \<and> stdout w1 = stdout w"
proof (induction ds arbitrary: w)
  case Nil
  then show ?case by simp
next
  case (Cons d ds)
  from Cons.prems obtain w0 where w0: "mkdir_exist_ok p d w = Inr w0"
    and rest: "mkdir_all p ds w0 = Inr w1"
    by (auto simp: and_then_eq_Inr)
  note step = mkdir_exist_ok_Inr [OF w0]
  note ih = Cons.IH [OF rest]
  have "nodes w1 d = Some Dir"
  proof (cases "d \<in> set ds")
    case True
    with ih show ?thesis by simp
  next
    case False
    with ih have "nodes w1 d = nodes w0 d" by simp
    with step show ?thesis by simp
  qed
  moreover have "nodes w1 q = nodes w q" if "q \<notin> set (d # ds)" for q
    using that ih step by simp
  ultimately show ?case using ih step by simp
qed

lemma mkdir_all_Inl: "mkdir_all p ds w = Inl e \<Longrightarrow> is_io_error e"
  by (induction ds arbitrary: w) (auto simp: and_then_eq_Inl dest: mkdir_exist_ok_Inl)

lemma main_Inr:
  assumes "main w = Inr w'"
  shows "\<exists>w1 w2 w3. makedirs output_dir w = Inr w1 \<and> create_icon 192 icon_192_path w1 = Inr w2
           \<and> create_icon 512 icon_512_path w2 = Inr w3 \<and> nodes w' = nodes w3"
  using assms
  by (auto simp: main_def and_then_eq_Inr print_def icon_192_path_def icon_512_path_def)

text \<open>
  Claim C2. When \<open>main\<close> succeeds from a well-formed world in which the output directory
  does not exist, the exit status is 0, the output directory and all its parents exist as
  directories, the entries of the output directory are exactly \<^verbatim>\<open>icon-192.png\<close> and
  \<^verbatim>\<open>icon-512.png\<close>, and these hold images of 192 by 192 and 512 by 512 pixels.
\<close>

theorem main_creates_directory_and_icons:
  assumes "main w = Inr w'" and "nodes w output_dir = None" and "well_formed w"
  shows "exit_status (main w) = 0
       \<and> (\<forall>d \<in> set (path_prefixes output_dir). nodes w' d = Some Dir)
       \<and> {p. dirname p = output_dir \<and> nodes w' p \<noteq> None}
           = {path_join output_dir ''icon-192.png'', path_join output_dir ''icon-512.png''}
       \<and> (\<exists>img. nodes w' (path_join output_dir ''icon-192.png'') = Some (File img)
             \<and> width img = 192 \<and> height img = 192)
       \<and> (\<exists>img. nodes w' (path_join output_dir ''icon-512.png'') = Some (File img)
             \<and> width img = 512 \<and> height img = 512)"
proof -
  from main_Inr [OF assms(1)] obtain w1 w2 w3 where
    mk: "makedirs output_dir w = Inr w1"
    and c1: "create_icon 192 icon_192_path w1 = Inr w2"
    and c2: "create_icon 512 icon_512_path w2 = Inr w3"
    and w': "nodes w' = nodes w3"
    by blast
  note dirs = mkdir_all_Inr [OF mk [unfolded makedirs_def]]
  from create_icon_Inr [OF c1] create_icon_Inr [OF c2] w'
  have n: "nodes w' = (nodes w1)(icon_192_path \<mapsto> File (icon 192), icon_512_path \<mapsto> File (icon 512))"
    by simp
  have made: "\<forall>d \<in> set (path_prefixes output_dir). nodes w' d = Some Dir"
    using dirs n icon_paths_not_prefixes by auto
  have f1: "nodes w' icon_192_path = Some (File (icon 192))"
    using n icon_paths_not_prefixes(3) by simp
  have f2: "nodes w' icon_512_path = Some (File (icon 512))"
    using n by simp
  have "p = icon_192_path \<or> p = icon_512_path"
    if d: "dirname p = output_dir" and e: "nodes w' p \<noteq> None" for p
  proof (rule ccontr)
    assume other: "\<not> (p = icon_192_path \<or> p = icon_512_path)"
    with n e have e1: "nodes w1 p \<noteq> None" by simp
    from d dirname_prefixes have "p \<notin> set (path_prefixes output_dir)" by blast
    with dirs e1 have "nodes w p \<noteq> None" by simp
    with assms(3) d have "is_dir w output_dir" by (auto simp: well_formed_def)
    with assms(2) output_dir_not_root show False by (simp add: is_dir_def)
  qed
  then have "{p. dirname p = output_dir \<and> nodes w' p \<noteq> None} = {icon_192_path, icon_512_path}"
    using f1 f2 dirname_icon_paths by auto
  with made f1 f2 assms(1) show ?thesis
    by (simp add: exit_status_def icon_192_path_def icon_512_path_def)
qed

lemma main_empty_world: "\<exists>w'. main empty_world = Inr w'"
proof -
  have "\<exists>w1. makedirs output_dir empty_world = Inr w1 \<and> denied w1 = {}
          \<and> nodes w1 output_dir = Some Dir
          \<and> nodes w1 icon_192_path = None \<and> nodes w1 icon_512_path = None"
    by (simp add: makedirs_def output_prefixes mkdir_exist_ok_def empty_world_def
        icon_192_path_eq icon_512_path_eq) (simp add: output_dir_def)
  then obtain w1 where mk: "makedirs output_dir empty_world = Inr w1" and d: "denied w1 = {}"
    and dir: "nodes w1 output_dir = Some Dir"
    and free: "nodes w1 icon_192_path = None" "nodes w1 icon_512_path = None"
    by blast
  have "can_write w1 icon_192_path"
    using d dir free by (simp add: can_write_def dirname_icon_paths is_dir_def icon_paths_files)
  then obtain w2 where c1: "create_icon 192 icon_192_path w1 = Inr w2"
    using create_icon_can_write [of 192] by auto
  from create_icon_Inr [OF c1] d dir free icon_paths_not_prefixes(3)
  have "can_write w2 icon_512_path"
    by (simp add: can_write_def dirname_icon_paths is_dir_def icon_paths_files)
      (simp add: icon_192_path_eq output_dir_def)
  then obtain w3 where c2: "create_icon 512 icon_512_path w2 = Inr w3"
    using create_icon_can_write [of 512] by auto
  from mk c1 c2 show ?thesis
    by (simp add: main_def icon_192_path_def icon_512_path_def)
qed

theorem main_creates_directory_and_icons_witness:
  "\<exists>w'. main empty_world = Inr w' \<and> exit_status (main empty_world) = 0
       \<and> nodes w' output_dir = Some Dir \<and> nodes w' ''/home'' = Some Dir
       \<and> {p. dirname p = output_dir \<and> nodes w' p \<noteq> None}
           = {path_join output_dir ''icon-192.png'', path_join output_dir ''icon-512.png''}"
proof -
  from main_empty_world obtain w' where w': "main empty_world = Inr w'" ..
  have none: "nodes empty_world output_dir = None" by (simp add: empty_world_def)
  have wf: "well_formed empty_world" by (simp add: well_formed_def empty_world_def)
  from main_creates_directory_and_icons [OF w' none wf] w' show ?thesis
    by (auto simp: output_prefixes)
qed

subsection \<open>Errors are passed on\<close>

lemma makedirs_Inl: "makedirs p w = Inl e \<Longrightarrow> is_io_error e"
  by (simp add: makedirs_def mkdir_all_Inl)

lemma create_icon_Inl_io:
  assumes "0 \<le> sz" and "create_icon sz path w = Inl e"
  shows "is_io_error e"
  using save_Inl [OF create_icon_Inl [OF assms]] by simp

lemma main_Inl_iff:
  "main w = Inl e \<longleftrightarrow>
     makedirs output_dir w = Inl e
     \<or> (\<exists>w1. makedirs output_dir w = Inr w1
          \<and> (create_icon 192 (path_join output_dir ''icon-192.png'') w1 = Inl e
              \<or> (\<exists>w2. create_icon 192 (path_join output_dir ''icon-192.png'') w1 = Inr w2
                    \<and> create_icon 512 (path_join output_dir ''icon-512.png'') w2 = Inl e)))"
  by (auto simp: main_def and_then_eq_Inl)

text \<open>
  Claim C8. Nothing catches an error. For a positive size \<open>create_icon\<close> fails with an
  error exactly when writing the file fails with that error, and such an error is an I/O
  error; \<open>main\<close> fails with an error exactly when the directory creation, the first
  \<open>create_icon\<close> or, after a successful first, the second \<open>create_icon\<close> fails with that
  error, one attempt each; a failed \<open>main\<close> has failed with an I/O error and the exit status
  is not 0.
\<close>

theorem io_errors_propagate:
  assumes "0 < sz"
  shows "(create_icon sz path w = Inl e
            \<longleftrightarrow> (\<exists>img. icon_canvas sz = Inr img \<and> save img path w = Inl e))
       \<and> (create_icon sz path w = Inl e \<longrightarrow> is_io_error e)
       \<and> (main w = Inl e \<longleftrightarrow>
            makedirs output_dir w = Inl e
            \<or> (\<exists>w1. makedirs output_dir w = Inr w1
                 \<and> (create_icon 192 (path_join output_dir ''icon-192.png'') w1 = Inl e
                     \<or> (\<exists>w2. create_icon 192 (path_join output_dir ''icon-192.png'') w1 = Inr w2
                           \<and> create_icon 512 (path_join output_dir ''icon-512.png'') w2
                               = Inl e))))
       \<and> (main w = Inl e \<longrightarrow> is_io_error e \<and> exit_status (main w) \<noteq> 0)"
proof -
  from assms have nonneg: "0 \<le> sz" by simp
  have a: "create_icon sz path w = Inl e
            \<longleftrightarrow> (\<exists>img. icon_canvas sz = Inr img \<and> save img path w = Inl e)"
    using nonneg by (auto simp: create_icon_eq icon_canvas_eq and_then_eq_Inl)
  have b: "create_icon sz path w = Inl e \<longrightarrow> is_io_error e"
    using create_icon_Inl_io [OF nonneg] by blast
  have c: "is_io_error e \<and> exit_status (main w) \<noteq> 0" if m: "main w = Inl e"
  proof -
    from m have "makedirs output_dir w = Inl e
      \<or> (\<exists>w1. create_icon 192 (path_join output_dir ''icon-192.png'') w1 = Inl e)
      \<or> (\<exists>w2. create_icon 512 (path_join output_dir ''icon-512.png'') w2 = Inl e)"
      by (auto simp: main_Inl_iff)
    then have "is_io_error e"
      using makedirs_Inl create_icon_Inl_io [of 192] create_icon_Inl_io [of 512] by auto
    with m show ?thesis by (simp add: exit_status_def)
  qed
  have d: "main w = Inl e \<longrightarrow> is_io_error e \<and> exit_status (main w) \<noteq> 0"
    using c by (rule impI)
  show ?thesis
    by (rule conjI [OF a conjI [OF b conjI [OF main_Inl_iff d]]])
qed

theorem io_errors_propagate_witness:
  "create_icon 192 ''missing/icon-192.png'' empty_world = Inl FileNotFoundError
   \<and> is_io_error FileNotFoundError
   \<and> main \<lparr>nodes = Map.empty, denied = {''/home''}, stdout = []\<rparr> = Inl PermissionError
   \<and> exit_status (main \<lparr>nodes = Map.empty, denied = {''/home''}, stdout = []\<rparr>) \<noteq> 0"
proof -
  have pos: "(0::int) < 192" by simp
  have s: "save (icon 192) ''missing/icon-192.png'' empty_world = Inl FileNotFoundError"
    by (simp add: save_def dirname_def is_dir_def empty_world_def)
  have i: "icon_canvas 192 = Inr (icon 192)" by (simp add: icon_canvas_eq)
  note t1 = io_errors_propagate [OF pos, of "''missing/icon-192.png''" empty_world
      FileNotFoundError]
  from t1 have t1a: "create_icon 192 ''missing/icon-192.png'' empty_world = Inl FileNotFoundError
      \<longleftrightarrow> (\<exists>img. icon_canvas 192 = Inr img
            \<and> save img ''missing/icon-192.png'' empty_world = Inl FileNotFoundError)"
    by (rule conjunct1)
  from s i have c: "create_icon 192 ''missing/icon-192.png'' empty_world
      = Inl FileNotFoundError"
    unfolding t1a by simp
  from t1 have "create_icon 192 ''missing/icon-192.png'' empty_world = Inl FileNotFoundError
      \<longrightarrow> is_io_error FileNotFoundError"
    by (rule conjunct1 [OF conjunct2])
  with c have io: "is_io_error FileNotFoundError" by simp
  have mk: "makedirs output_dir \<lparr>nodes = Map.empty, denied = {''/home''}, stdout = []\<rparr>
      = Inl PermissionError"
    by (simp add: makedirs_def output_prefixes mkdir_exist_ok_def)
  note t2 = io_errors_propagate [OF pos, of "''x''"
      "\<lparr>nodes = Map.empty, denied = {''/home''}, stdout = []\<rparr>" PermissionError]
  from t2 have t2a: "main \<lparr>nodes = Map.empty, denied = {''/home''}, stdout = []\<rparr>
      = Inl PermissionError \<longrightarrow> is_io_error PermissionError
        \<and> exit_status (main \<lparr>nodes = Map.empty, denied = {''/home''}, stdout = []\<rparr>) \<noteq> 0"
    by (rule conjunct2 [OF conjunct2 [OF conjunct2]])
  have m: "main \<lparr>nodes = Map.empty, denied = {''/home''}, stdout = []\<rparr>
      = Inl PermissionError"
    by (simp add: main_def mk)
  with t2a have "exit_status (main \<lparr>nodes = Map.empty, denied = {''/home''}, stdout = []\<rparr>) \<noteq> 0"
    by simp
  with c io m show ?thesis by simp
qed

subsection \<open>Frame\<close>

lemma can_write_before:
  assumes "can_write w1 q" and "nodes w1 = (nodes w)(p \<mapsto> File img)" and "denied w1 = denied w"
    and "q \<noteq> p"
  shows "can_write w q"
proof -
  from assms(1) have d: "is_dir w1 (dirname q)" by (simp add: can_write_def)
  have "is_dir w (dirname q)"
  proof (cases "set (dirname q) \<subseteq> {CHR ''/''}")
    case True
    then show ?thesis by (simp add: is_dir_def)
  next
    case False
    with d have "nodes w1 (dirname q) = Some Dir" by (simp add: is_dir_def)
    with assms(2) have "nodes w (dirname q) = Some Dir" by (simp split: if_splits)
    then show ?thesis by (simp add: is_dir_def)
  qed
  with assms show ?thesis by (simp add: can_write_def)
qed

lemma can_write_other:
  assumes "can_write w p" and "can_write w1 q" and "nodes w1 = (nodes w)(p \<mapsto> File img)"
    and "nodes v = (nodes w)(q \<mapsto> File img')" and "denied v = denied w" and "q \<noteq> p"
  shows "can_write v p"
proof -
  from assms(1) have d: "is_dir w (dirname p)" by (simp add: can_write_def)
  have "is_dir v (dirname p)"
  proof (cases "set (dirname p) \<subseteq> {CHR ''/''}")
    case True
    then show ?thesis by (simp add: is_dir_def)
  next
    case False
    with d have dir: "nodes w (dirname p) = Some Dir" by (simp add: is_dir_def)
    have "dirname p \<noteq> q"
    proof
      assume eq: "dirname p = q"
      with dir assms(3,6) have "nodes w1 q = Some Dir" by simp
      with assms(2) show False by (simp add: can_write_def)
    qed
    with dir assms(4) show ?thesis by (simp add: is_dir_def)
  qed
  with assms show ?thesis by (simp add: can_write_def)
qed

text \<open>
  Claim C9. A successful \<open>create_icon\<close> changes the directory tree at the output path only,
  where it puts the image that the size alone determines; it leaves the refused paths as
  they were and adds one line to the console. Two calls for different paths do not
  interact: the second leaves the file of the first in place, and the calls succeed in the
  other order too, with the same directory tree as the result.
\<close>

theorem create_icon_frame:
  assumes "create_icon sz path w = Inr w'"
  shows "(\<exists>img line. icon_canvas sz = Inr img \<and> nodes w' = (nodes w)(path \<mapsto> File img)
            \<and> denied w' = denied w \<and> stdout w' = stdout w @ [line])
       \<and> (\<forall>sz2 path2 w2. path2 \<noteq> path \<and> create_icon sz2 path2 w' = Inr w2 \<longrightarrow>
            nodes w2 path = nodes w' path
            \<and> (\<exists>v v2. create_icon sz2 path2 w = Inr v \<and> create_icon sz path v = Inr v2
                  \<and> nodes v2 = nodes w2))"
proof -
  note first = create_icon_Inr [OF assms]
  then have nonneg: "0 \<le> sz" by simp
  have a: "\<exists>img line. icon_canvas sz = Inr img \<and> nodes w' = (nodes w)(path \<mapsto> File img)
            \<and> denied w' = denied w \<and> stdout w' = stdout w @ [line]"
    using first by (simp add: icon_canvas_eq)
  have b: "nodes w2 path = nodes w' path
            \<and> (\<exists>v v2. create_icon sz2 path2 w = Inr v \<and> create_icon sz path v = Inr v2
                  \<and> nodes v2 = nodes w2)"
    if ne: "path2 \<noteq> path" and second: "create_icon sz2 path2 w' = Inr w2" for sz2 path2 w2
  proof -
    note snd = create_icon_Inr [OF second]
    from snd first have cw: "can_write w path2"
      using can_write_before [of w' path2 w path "icon sz"] ne by simp
    with snd obtain v where v: "create_icon sz2 path2 w = Inr v"
      using create_icon_can_write [of sz2 w path2] by auto
    note sv = create_icon_Inr [OF v]
    from first snd sv ne have "can_write v path"
      using can_write_other [of w path w' path2 "icon sz" v "icon sz2"] by simp
    with nonneg obtain v2 where v2: "create_icon sz path v = Inr v2"
      using create_icon_can_write [of sz v path] by auto
    note sv2 = create_icon_Inr [OF v2]
    from first snd sv sv2 ne have "nodes v2 = nodes w2" by (auto simp: fun_eq_iff)
    moreover from snd ne have "nodes w2 path = nodes w' path" by simp
    ultimately show ?thesis using v v2 by blast
  qed
  from a b show ?thesis by blast
qed

theorem create_icon_frame_witness:
  "\<exists>w1 w2 v v2 img. create_icon 192 ''icon-192.png'' empty_world = Inr w1
      \<and> nodes w1 = (nodes empty_world)(''icon-192.png'' \<mapsto> File img)
      \<and> denied w1 = denied empty_world
      \<and> create_icon 512 ''icon-512.png'' w1 = Inr w2
      \<and> nodes w2 ''icon-192.png'' = nodes w1 ''icon-192.png''
      \<and> create_icon 512 ''icon-512.png'' empty_world = Inr v
      \<and> create_icon 192 ''icon-192.png'' v = Inr v2 \<and> nodes v2 = nodes w2"
proof -
  obtain w1 where w1: "create_icon 192 ''icon-192.png'' empty_world = Inr w1"
    using create_icon_can_write [OF _ can_write_empty, of 192] by auto
  note r1 = create_icon_Inr [OF w1]
  from r1 have n1: "nodes w1 = (nodes empty_world)(''icon-192.png'' \<mapsto> File (icon 192))"
    and d1: "denied w1 = denied empty_world"
    by (rule conjunct1 [OF conjunct2 [OF conjunct2]],
        rule conjunct1 [OF conjunct2 [OF conjunct2 [OF conjunct2]]])
  have p: "dirname ''icon-512.png'' = []" by (simp add: dirname_def)
  have "can_write w1 ''icon-512.png''"
    unfolding can_write_def p n1 d1 by (simp add: is_dir_def empty_world_def)
  then obtain w2 where w2: "create_icon 512 ''icon-512.png'' w1 = Inr w2"
    using create_icon_can_write [of 512] by auto
  have ne: "''icon-512.png'' \<noteq> ''icon-192.png''" by simp
  note f = create_icon_frame [OF w1]
  from f have "\<forall>sz2 path2 w2. path2 \<noteq> ''icon-192.png'' \<and> create_icon sz2 path2 w1 = Inr w2 \<longrightarrow>
            nodes w2 ''icon-192.png'' = nodes w1 ''icon-192.png''
            \<and> (\<exists>v v2. create_icon sz2 path2 empty_world = Inr v
                  \<and> create_icon 192 ''icon-192.png'' v = Inr v2 \<and> nodes v2 = nodes w2)"
    by (rule conjunct2)
  then have "''icon-512.png'' \<noteq> ''icon-192.png'' \<and> create_icon 512 ''icon-512.png'' w1 = Inr w2 \<longrightarrow>
            nodes w2 ''icon-192.png'' = nodes w1 ''icon-192.png''
            \<and> (\<exists>v v2. create_icon 512 ''icon-512.png'' empty_world = Inr v
                  \<and> create_icon 192 ''icon-192.png'' v = Inr v2 \<and> nodes v2 = nodes w2)"
    by (elim allE)
  with ne w2 obtain v v2 where "nodes w2 ''icon-192.png'' = nodes w1 ''icon-192.png''"
    "create_icon 512 ''icon-512.png'' empty_world = Inr v"
    "create_icon 192 ''icon-192.png'' v = Inr v2" "nodes v2 = nodes w2"
    by (elim impE conjE exE) (rule conjI)
  with w1 w2 n1 d1 show ?thesis by (intro exI conjI)
qed

end
